theory Spec2Isabelle
  imports Main "HOL-Library.Word" "HOL-Library.Sublist" "HOL-Library.AList"
begin

section \<open>Attribute values and rows\<close>

text \<open>
  An attribute value of the trace data (\<open>pcommon.Value\<close>) carries a type tag, read by
  \<open>v.Type()\<close>; the constructor is the tag. A 64-bit float is carried as its bit pattern:
  the exporter copies it and never computes with it. An attribute map
  (\<open>pcommon.Map\<close>) is a sequence of key/value entries, ranged over in order.
\<close>

datatype pvalue =
    ValueEmpty
  | ValueStr string
  | ValueInt "64 word"
  | ValueDouble "64 word"
  | ValueBool bool
  | ValueMap "(string \<times> pvalue) list"
  | ValueSlice "pvalue list"
  | ValueBytes "8 word list"

datatype ValueType =
    ValueTypeEmpty | ValueTypeStr | ValueTypeInt | ValueTypeDouble
  | ValueTypeBool | ValueTypeMap | ValueTypeSlice | ValueTypeBytes

fun valueType :: "pvalue \<Rightarrow> ValueType" where
  "valueType ValueEmpty = ValueTypeEmpty"
| "valueType (ValueStr s) = ValueTypeStr"
| "valueType (ValueInt i) = ValueTypeInt"
| "valueType (ValueDouble d) = ValueTypeDouble"
| "valueType (ValueBool b) = ValueTypeBool"
| "valueType (ValueMap m) = ValueTypeMap"
| "valueType (ValueSlice s) = ValueTypeSlice"
| "valueType (ValueBytes b) = ValueTypeBytes"

text \<open>
  A row is \<open>map[string]interface{}\<close>. A stored value is a Go value with its dynamic
  type; these are the dynamic types the exporter tells apart: the seven results of the
  accessors \<open>v.Bool()\<close>, \<open>v.Bytes()\<close>, \<open>v.Double()\<close>, \<open>v.Int()\<close>, \<open>v.Map()\<close>,
  \<open>v.Slice()\<close>, \<open>v.Str()\<close>, and \<open>byte\<close> (\<open>uint8\<close>), which the type switch of
  \<open>updateSchema\<close> names. A row built by \<open>buildRows\<close> holds only values of the first
  seven types, and never \<open>nil\<close>.
\<close>

datatype iface =
    GoBool bool
  | GoByteSlice "8 word list"
  | GoFloat64 "64 word"
  | GoInt64 "64 word"
  | GoMap "(string \<times> pvalue) list"
  | GoSlice "pvalue list"
  | GoString string
  | GoUint8 "8 word"

text \<open>
  The entries of a row, keys distinct. \<open>row[k] = x\<close> is \<open>AList.update k x row\<close>;
  \<open>row[k]\<close> is \<open>map_of row k\<close>. Go ranges over a map in an order of its choosing: the
  list order stands for that order, and every statement below holds for every list.
\<close>

type_synonym bigqueryrow = "(string \<times> iface) list"

subsection \<open>rows_builder.go\<close>

text \<open>\<open>strings.Replace(s, old, new, -1)\<close> for a non-empty \<open>old\<close>: every non-overlapping
  occurrence, from the left.\<close>

function strings_Replace :: "string \<Rightarrow> string \<Rightarrow> string \<Rightarrow> string" where
  "strings_Replace [] old new = []"
| "strings_Replace (c # cs) old new =
     (if old \<noteq> [] \<and> prefix old (c # cs)
      then new @ strings_Replace (drop (length old) (c # cs)) old new
      else c # strings_Replace cs old new)"
  by pat_completeness auto
termination
  by (relation "measure (\<lambda>(s, old, new). length s)") (auto simp: neq_Nil_conv)

text \<open>The first statement of \<open>addKeyValue\<close>: \<open>k = strings.Replace(k, ".", "_", -1)\<close>.\<close>

definition sanitize :: "string \<Rightarrow> string" where
  "sanitize k = strings_Replace k ''.'' ''_''"

definition addKeyValue :: "bigqueryrow \<Rightarrow> string \<Rightarrow> pvalue \<Rightarrow> bigqueryrow" where
  "addKeyValue row k v =
     (let k = sanitize k in
      case v of
        ValueBool b \<Rightarrow> AList.update k (GoBool b) row
      | ValueBytes bs \<Rightarrow> AList.update k (GoByteSlice bs) row
      | ValueDouble d \<Rightarrow> AList.update k (GoFloat64 d) row
      | ValueInt i \<Rightarrow> AList.update k (GoInt64 i) row
      | ValueMap m \<Rightarrow> AList.update k (GoMap m) row
      | ValueSlice s \<Rightarrow> AList.update k (GoSlice s) row
      | ValueStr s \<Rightarrow> AList.update k (GoString s) row
      | ValueEmpty \<Rightarrow> row)"

text \<open>
  The trace data (\<open>ptrace.Traces\<close>), as far as \<open>buildRows\<close> reads it: resource spans
  with the resource's attributes, their scope spans, and the spans of each with name and
  attributes.
\<close>

record Span =
  SpanName :: string
  SpanAttributes :: "(string \<times> pvalue) list"

record ScopeSpans =
  Spans :: "Span list"

record ResourceSpans =
  ResourceAttributes :: "(string \<times> pvalue) list"
  ScopeSpansOf :: "ScopeSpans list"

type_synonym Traces = "ResourceSpans list"

text \<open>\<open>m.Range(func(k, v) bool { row.addKeyValue(k, v); return true })\<close>\<close>

definition rangeAdd :: "(string \<times> pvalue) list \<Rightarrow> bigqueryrow \<Rightarrow> bigqueryrow" where
  "rangeAdd attrs row = fold (\<lambda>(k, v) row. addKeyValue row k v) attrs row"

text \<open>The body of the innermost loop of \<open>buildRows\<close>: the row of one span.\<close>

definition spanRow :: "ResourceSpans \<Rightarrow> Span \<Rightarrow> bigqueryrow" where
  "spanRow rspan span =
     rangeAdd (SpanAttributes span)
       (rangeAdd (ResourceAttributes rspan) [(''name'', GoString (SpanName span))])"

text \<open>The three nested loops, each appending to \<open>rows\<close>.\<close>

definition spansLoop :: "ResourceSpans \<Rightarrow> Span list \<Rightarrow> bigqueryrow list \<Rightarrow> bigqueryrow list" where
  "spansLoop rspan spans rows = fold (\<lambda>span rows. rows @ [spanRow rspan span]) spans rows"

definition scopeLoop :: "ResourceSpans \<Rightarrow> ScopeSpans list \<Rightarrow> bigqueryrow list \<Rightarrow> bigqueryrow list" where
  "scopeLoop rspan sspans rows = fold (\<lambda>sspan rows. spansLoop rspan (Spans sspan) rows) sspans rows"

definition buildRows :: "Traces \<Rightarrow> bigqueryrow list" where
  "buildRows td = fold (\<lambda>rspan rows. scopeLoop rspan (ScopeSpansOf rspan) rows) td []"

subsection \<open>The table and its store\<close>

text \<open>
  \<open>bigquery.FieldType\<close> is a string type of the client library; its zero value is the
  empty string. The six constants the exporter names have the library's values.
\<close>

type_synonym FieldType = string

definition BooleanFieldType :: FieldType where "BooleanFieldType = ''BOOLEAN''"
definition BigNumericFieldType :: FieldType where "BigNumericFieldType = ''BIGNUMERIC''"
definition NumericFieldType :: FieldType where "NumericFieldType = ''NUMERIC''"
definition StringFieldType :: FieldType where "StringFieldType = ''STRING''"
definition BytesFieldType :: FieldType where "BytesFieldType = ''BYTES''"
definition TimestampFieldType :: FieldType where "TimestampFieldType = ''TIMESTAMP''"

text \<open>\<open>bigquery.FieldSchema\<close>: the exporter sets \<open>Name\<close> and \<open>Type\<close> and leaves every other
  field at its zero value, \<open>Required\<close> among them.\<close>

record FieldSchema =
  Name :: string
  Type :: FieldType
  Required :: bool

record TableMetadata =
  Schema :: "FieldSchema list"
  ETag :: string

record Config =
  ProjectID :: string
  Dataset :: string
  Table :: string
  SchemaFlexible :: bool

text \<open>A Go \<open>error\<close> is its text (\<open>err.Error()\<close>); \<open>nil\<close> is \<open>None\<close>.\<close>

type_synonym error = string

text \<open>What \<open>fmt.Printf\<close> and \<open>fmt.Println\<close> write, by message and arguments.\<close>

datatype message =
    ErrorPushingTraces error
  | WaitingForSchema nat
  | RetryingInsert
  | FieldTypeMismatch string string
  | UnsupportedType string string
  | UpdatingField string FieldType
  | UpdatingSchema nat

text \<open>
  Everything the exporter does to the outside, in order: the three calls on the table
  (\<open>Inserter().Put\<close>, \<open>Metadata\<close>, \<open>Update\<close> with the schema and the ETag it sends),
  \<open>time.Sleep\<close> (in seconds) and the printed messages.
\<close>

datatype event =
    EvPut "bigqueryrow list"
  | EvMetadata
  | EvUpdate "FieldSchema list" string
  | EvSleep nat
  | EvPrint message

text \<open>
  The store is outside the program: what a call returns is a parameter, which may depend
  on everything done before the call.
\<close>

record store =
  Put :: "event list \<Rightarrow> bigqueryrow list \<Rightarrow> error option"
  Metadata :: "event list \<Rightarrow> error + TableMetadata"
  Update :: "event list \<Rightarrow> FieldSchema list \<Rightarrow> string \<Rightarrow> error option"

subsection \<open>updateSchema\<close>

text \<open>
  \<open>updateSchema\<close>, \<open>sendRows\<close> and \<open>consumeTraces\<close> are embedded from the exporter source
  that goes with \<open>rows_builder.go\<close> (it calls \<open>buildRows\<close> and reads the setting
  \<open>SchemaFlexible\<close> of \<open>Config\<close>).
\<close>

text \<open>\<open>strings.Contains(s, substr)\<close>\<close>

definition strings_Contains :: "string \<Rightarrow> string \<Rightarrow> bool" where
  "strings_Contains s substr = sublist substr s"

text \<open>\<open>reflect.TypeOf(value).String()\<close>\<close>

fun typeString :: "iface \<Rightarrow> string" where
  "typeString (GoBool b) = ''bool''"
| "typeString (GoByteSlice bs) = ''pcommon.ByteSlice''"
| "typeString (GoFloat64 d) = ''float64''"
| "typeString (GoInt64 i) = ''int64''"
| "typeString (GoMap m) = ''pcommon.Map''"
| "typeString (GoSlice s) = ''pcommon.Slice''"
| "typeString (GoString s) = ''string''"
| "typeString (GoUint8 b) = ''uint8''"

text \<open>
  The variables of \<open>updateSchema\<close>: the maps \<open>knownFields\<close> and \<open>knownFieldsTypes\<close> (a
  missing key reads as the zero value), the keys of \<open>newFields\<close>, \<open>metaUpdate.Schema\<close>,
  and what has been done so far.
\<close>

record vars =
  knownFields :: "string \<Rightarrow> bool"
  knownFieldsTypes :: "string \<Rightarrow> string"
  newFields :: "string list"
  metaUpdateSchema :: "FieldSchema list"
  history :: "event list"

text \<open>The variables of \<open>updateSchema\<close> once the metadata is fetched: the two maps made empty,
  \<open>metaUpdate.Schema\<close> set to \<open>meta.Schema\<close>.\<close>

definition initVars :: "TableMetadata \<Rightarrow> event list \<Rightarrow> vars" where
  "initVars meta tr =
     \<lparr>knownFields = (\<lambda>k. False), knownFieldsTypes = (\<lambda>k. []), newFields = [],
      metaUpdateSchema = Schema meta, history = tr @ [EvMetadata]\<rparr>"

text \<open>The loop over \<open>meta.Schema\<close>: one field. The \<open>default\<close> case returns the error.\<close>

definition knownField :: "FieldSchema \<Rightarrow> vars \<Rightarrow> error + vars" where
  "knownField field v =
     (let v = v\<lparr>knownFields := (knownFields v)(Name field := True)\<rparr> in
      if Type field = BigNumericFieldType
        then Inr (v\<lparr>knownFieldsTypes := (knownFieldsTypes v)(Name field := ''float64'')\<rparr>)
      else if Type field = BooleanFieldType
        then Inr (v\<lparr>knownFieldsTypes := (knownFieldsTypes v)(Name field := ''bool'')\<rparr>)
      else if Type field = BytesFieldType
        then Inr (v\<lparr>knownFieldsTypes := (knownFieldsTypes v)(Name field := ''byte'')\<rparr>)
      else if Type field = NumericFieldType
        then Inr (v\<lparr>knownFieldsTypes := (knownFieldsTypes v)(Name field := ''int64'')\<rparr>)
      else if Type field = StringFieldType
        then Inr (v\<lparr>knownFieldsTypes := (knownFieldsTypes v)(Name field := ''string'')\<rparr>)
      else if Type field = TimestampFieldType
        then Inr (v\<lparr>knownFieldsTypes := (knownFieldsTypes v)(Name field := ''int64'')\<rparr>)
      else Inl (''BigQuery field type '' @ Type field
                  @ '' incompatible with span attribute value types''))"

fun knownLoop :: "FieldSchema list \<Rightarrow> vars \<Rightarrow> error + vars" where
  "knownLoop [] v = Inr v"
| "knownLoop (field # rest) v =
     (case knownField field v of Inl err \<Rightarrow> Inl err | Inr v' \<Rightarrow> knownLoop rest v')"

text \<open>The type switch \<open>switch value.(type)\<close> on a new field that is not \<open>ts\<close>: the field
  type, and whether the \<open>default\<close> case printed.\<close>

fun typeSwitch :: "iface \<Rightarrow> FieldType \<times> bool" where
  "typeSwitch (GoBool b) = (BooleanFieldType, False)"
| "typeSwitch (GoUint8 b) = (BytesFieldType, False)"
| "typeSwitch (GoFloat64 d) = (BigNumericFieldType, False)"
| "typeSwitch (GoInt64 i) = (NumericFieldType, False)"
| "typeSwitch (GoString s) = (StringFieldType, False)"
| "typeSwitch (GoByteSlice bs) = ([], True)"
| "typeSwitch (GoMap m) = ([], True)"
| "typeSwitch (GoSlice s) = ([], True)"

text \<open>The field type of a new field, and whether the \<open>default\<close> case printed:
  \<open>if key == "ts" { fieldType = bigquery.TimestampFieldType } else { switch value.(type) ... }\<close>\<close>

definition newFieldType :: "string \<Rightarrow> iface \<Rightarrow> FieldType \<times> bool" where
  "newFieldType key value =
     (if key = ''ts'' then (TimestampFieldType, False) else typeSwitch value)"

text \<open>The body of the inner loop \<open>for key, value := range row\<close>.\<close>

definition fieldStep :: "string \<times> iface \<Rightarrow> vars \<Rightarrow> vars" where
  "fieldStep kv v =
     (let key = fst kv; value = snd kv;
          valueType = typeString value;
          v = (if knownFields v key \<and> knownFieldsTypes v key \<noteq> valueType
               then v\<lparr>history := history v @ [EvPrint (FieldTypeMismatch key valueType)]\<rparr>
               else v)
      in if \<not> knownFields v key then
           let (fieldType, unsupported) = newFieldType key value;
               v = (if unsupported
                    then v\<lparr>history := history v @ [EvPrint (UnsupportedType key valueType)]\<rparr>
                    else v);
               v = v\<lparr>history := history v @ [EvPrint (UpdatingField key fieldType)]\<rparr>;
               v = v\<lparr>metaUpdateSchema := metaUpdateSchema v
                        @ [\<lparr>Name = key, Type = fieldType, Required = False\<rparr>]\<rparr>;
               v = v\<lparr>knownFields := (knownFields v)(key := True)\<rparr>;
               v = v\<lparr>knownFieldsTypes := (knownFieldsTypes v)(key := valueType)\<rparr>
           in v\<lparr>newFields := List.insert key (newFields v)\<rparr>
         else v)"

definition rowsLoop :: "bigqueryrow list \<Rightarrow> vars \<Rightarrow> vars" where
  "rowsLoop rows v = fold (\<lambda>row v. fold fieldStep row v) rows v"

text \<open>\<open>updateSchema\<close>, from what has been done so far: the error returned and what has
  been done after it.\<close>

definition updateSchema :: "store \<Rightarrow> event list \<Rightarrow> bigqueryrow list \<Rightarrow> error option \<times> event list" where
  "updateSchema table tr rows =
     (case Metadata table tr of
        Inl err \<Rightarrow> (Some (''table metadata: '' @ err), tr @ [EvMetadata])
      | Inr meta \<Rightarrow>
          (case knownLoop (Schema meta) (initVars meta tr) of
             Inl err \<Rightarrow> (Some err, tr @ [EvMetadata])
           | Inr v0 \<Rightarrow>
               (let v = rowsLoop rows v0 in
                if length (newFields v) = 0 then (None, history v)
                else
                  let tr' = history v @ [EvPrint (UpdatingSchema (length (newFields v)))] in
                  (case Update table tr' (metaUpdateSchema v) (ETag meta) of
                     Some err \<Rightarrow> (Some (''unable to update schema: '' @ err),
                                  tr' @ [EvUpdate (metaUpdateSchema v) (ETag meta)])
                   | None \<Rightarrow> (None, tr' @ [EvUpdate (metaUpdateSchema v) (ETag meta)])))))"

subsection \<open>sendRows and consumeTraces\<close>

definition sendRows :: "Config \<Rightarrow> store \<Rightarrow> event list \<Rightarrow> bigqueryrow list \<Rightarrow> error option \<times> event list" where
  "sendRows sender table tr rows =
     (let err = Put table tr rows; tr1 = tr @ [EvPut rows] in
      if err \<noteq> None \<and> strings_Contains (the err) ''no such field'' then
        if SchemaFlexible sender then
          (case updateSchema table tr1 rows of
             (Some err', tr2) \<Rightarrow> (Some err', tr2)
           | (None, tr2) \<Rightarrow>
               (let tr3 = tr2 @ [EvPrint (WaitingForSchema 60), EvSleep 60, EvPrint RetryingInsert]
                in (Put table tr3 rows, tr3 @ [EvPut rows])))
        else (err, tr1)
      else (err, tr1))"

definition consumeTraces :: "Config \<Rightarrow> store \<Rightarrow> event list \<Rightarrow> Traces \<Rightarrow> error option \<times> event list" where
  "consumeTraces s table tr td =
     (let rows = buildRows td in
      case sendRows s table tr rows of
        (Some err, tr') \<Rightarrow> (Some err, tr' @ [EvPrint (ErrorPushingTraces err)])
      | (None, tr') \<Rightarrow> (None, tr'))"

text \<open>The calls on the table and the waits among what has been done: no printing.\<close>

fun isCall :: "event \<Rightarrow> bool" where
  "isCall (EvPrint m) = False"
| "isCall e = True"

definition calls :: "event list \<Rightarrow> event list" where
  "calls tr = filter isCall tr"

subsection \<open>Notions used to state the properties\<close>

text \<open>The Go value that \<open>addKeyValue\<close> stores for an attribute value, if it stores one.\<close>

fun stored :: "pvalue \<Rightarrow> iface option" where
  "stored (ValueBool b) = Some (GoBool b)"
| "stored (ValueBytes bs) = Some (GoByteSlice bs)"
| "stored (ValueDouble d) = Some (GoFloat64 d)"
| "stored (ValueInt i) = Some (GoInt64 i)"
| "stored (ValueMap m) = Some (GoMap m)"
| "stored (ValueSlice s) = Some (GoSlice s)"
| "stored (ValueStr s) = Some (GoString s)"
| "stored ValueEmpty = None"

text \<open>Some attribute of \<open>attrs\<close> is written into the row under the field name \<open>n\<close>.\<close>

definition writes :: "string \<Rightarrow> (string \<times> pvalue) list \<Rightarrow> bool" where
  "writes n attrs = list_ex (\<lambda>kv. sanitize (fst kv) = n \<and> stored (snd kv) \<noteq> None) attrs"

text \<open>The spans of the trace data in traversal order (resource spans, then their scope
  spans, then the spans of each), each with the resource spans it belongs to.\<close>

definition leafRecords :: "Traces \<Rightarrow> (ResourceSpans \<times> Span) list" where
  "leafRecords td =
     concat (map (\<lambda>rspan. map (Pair rspan) (concat (map Spans (ScopeSpansOf rspan)))) td)"

text \<open>The six field types that the loop over \<open>meta.Schema\<close> accepts.\<close>

definition permitted :: "FieldSchema \<Rightarrow> bool" where
  "permitted field \<longleftrightarrow>
     Type field \<in> set [BigNumericFieldType, BooleanFieldType, BytesFieldType,
                        NumericFieldType, StringFieldType, TimestampFieldType]"

text \<open>The field names of a batch, in the order the loops meet them.\<close>

definition batchKeys :: "bigqueryrow list \<Rightarrow> string list" where
  "batchKeys rows = map fst (concat rows)"

text \<open>The field definitions that the loop over the entries \<open>kvs\<close> appends, from the known
  fields \<open>kf\<close>.\<close>

fun stage :: "(string \<Rightarrow> bool) \<Rightarrow> (string \<times> iface) list \<Rightarrow> FieldSchema list" where
  "stage kf [] = []"
| "stage kf (kv # kvs) =
     (if kf (fst kv) then stage kf kvs
      else \<lparr>Name = fst kv, Type = fst (newFieldType (fst kv) (snd kv)), Required = False\<rparr>
             # stage (kf(fst kv := True)) kvs)"


subsection \<open>The revision of the exporter without the SchemaFlexible setting\<close>

text \<open>
  \<open>bigquery_exporter.go\<close> holds a revision of the same exporter in which \<open>insertRows\<close> does
  what \<open>sendRows\<close> does but reads no setting, and in which the loop over \<open>meta.Schema\<close>
  words its error differently. The loop over the rows is the same, statement for
  statement (the cases of the two switches are listed in another order, and the printed
  texts differ).
\<close>

definition knownFieldOld :: "FieldSchema \<Rightarrow> vars \<Rightarrow> error + vars" where
  "knownFieldOld field v =
     (let v = v\<lparr>knownFields := (knownFields v)(Name field := True)\<rparr> in
      if Type field = BooleanFieldType
        then Inr (v\<lparr>knownFieldsTypes := (knownFieldsTypes v)(Name field := ''bool'')\<rparr>)
      else if Type field = BigNumericFieldType
        then Inr (v\<lparr>knownFieldsTypes := (knownFieldsTypes v)(Name field := ''float64'')\<rparr>)
      else if Type field = NumericFieldType
        then Inr (v\<lparr>knownFieldsTypes := (knownFieldsTypes v)(Name field := ''int64'')\<rparr>)
      else if Type field = StringFieldType
        then Inr (v\<lparr>knownFieldsTypes := (knownFieldsTypes v)(Name field := ''string'')\<rparr>)
      else if Type field = BytesFieldType
        then Inr (v\<lparr>knownFieldsTypes := (knownFieldsTypes v)(Name field := ''byte'')\<rparr>)
      else if Type field = TimestampFieldType
        then Inr (v\<lparr>knownFieldsTypes := (knownFieldsTypes v)(Name field := ''int64'')\<rparr>)
      else Inl (''bigquery field '' @ Name field
                  @ '' has type not permitted as OTel span attribute: '' @ Type field))"

fun knownLoopOld :: "FieldSchema list \<Rightarrow> vars \<Rightarrow> error + vars" where
  "knownLoopOld [] v = Inr v"
| "knownLoopOld (field # rest) v =
     (case knownFieldOld field v of Inl err \<Rightarrow> Inl err | Inr v' \<Rightarrow> knownLoopOld rest v')"

definition updateSchemaOld :: "store \<Rightarrow> event list \<Rightarrow> bigqueryrow list \<Rightarrow> error option \<times> event list" where
  "updateSchemaOld table tr rows =
     (case Metadata table tr of
        Inl err \<Rightarrow> (Some (''table metadata: '' @ err), tr @ [EvMetadata])
      | Inr meta \<Rightarrow>
          (case knownLoopOld (Schema meta) (initVars meta tr) of
             Inl err \<Rightarrow> (Some err, tr @ [EvMetadata])
           | Inr v0 \<Rightarrow>
               (let v = rowsLoop rows v0 in
                if length (newFields v) = 0 then (None, history v)
                else
                  let tr' = history v @ [EvPrint (UpdatingSchema (length (newFields v)))] in
                  (case Update table tr' (metaUpdateSchema v) (ETag meta) of
                     Some err \<Rightarrow> (Some (''unable to update schema: '' @ err),
                                  tr' @ [EvUpdate (metaUpdateSchema v) (ETag meta)])
                   | None \<Rightarrow> (None, tr' @ [EvUpdate (metaUpdateSchema v) (ETag meta)])))))"

definition insertRows :: "store \<Rightarrow> event list \<Rightarrow> bigqueryrow list \<Rightarrow> error option \<times> event list" where
  "insertRows table tr rows =
     (let err = Put table tr rows; tr1 = tr @ [EvPut rows] in
      if err \<noteq> None \<and> strings_Contains (the err) ''no such field'' then
        (case updateSchemaOld table tr1 rows of
           (Some err', tr2) \<Rightarrow> (Some err', tr2)
         | (None, tr2) \<Rightarrow>
             (let tr3 = tr2 @ [EvPrint (WaitingForSchema 60), EvSleep 60, EvPrint RetryingInsert]
              in (Put table tr3 rows, tr3 @ [EvPut rows])))
      else (err, tr1))"

subsection \<open>Example inputs\<close>

text \<open>
  A table whose schema has the one field \<open>name\<close>; its store rejects an insert with an
  unknown-field error until the exporter has waited, and accepts every alteration.
\<close>

definition exampleSchema :: "FieldSchema list" where
  "exampleSchema = [\<lparr>Name = ''name'', Type = StringFieldType, Required = False\<rparr>]"

definition exampleStore :: store where
  "exampleStore =
     \<lparr>Put = (\<lambda>tr rows. if EvSleep 60 \<in> set tr then None else Some ''no such field: level''),
      Metadata = (\<lambda>tr. Inr \<lparr>Schema = exampleSchema, ETag = ''etag1''\<rparr>),
      Update = (\<lambda>tr sch etag. None)\<rparr>"

text \<open>A table whose fetched schema already has the field \<open>level\<close>, while its store still
  rejects an insert with that field until the exporter has waited.\<close>

definition laggingStore :: store where
  "laggingStore =
     \<lparr>Put = (\<lambda>tr rows. if EvSleep 60 \<in> set tr then None else Some ''no such field: level''),
      Metadata = (\<lambda>tr. Inr \<lparr>Schema = exampleSchema
                                @ [\<lparr>Name = ''level'', Type = NumericFieldType, Required = False\<rparr>],
                              ETag = ''etag2''\<rparr>),
      Update = (\<lambda>tr sch etag. None)\<rparr>"

text \<open>A table that has a field of a type outside the six.\<close>

definition integerStore :: store where
  "integerStore =
     \<lparr>Put = (\<lambda>tr rows. Some ''no such field: level''),
      Metadata = (\<lambda>tr. Inr \<lparr>Schema = [\<lparr>Name = ''id'', Type = ''INTEGER'', Required = False\<rparr>],
                              ETag = ''etag1''\<rparr>),
      Update = (\<lambda>tr sch etag. None)\<rparr>"

text \<open>A batch with a field the table lacks, a batch without one, and a batch whose new
  field holds a map.\<close>

definition exampleRows :: "bigqueryrow list" where
  "exampleRows = [[(''name'', GoString ''span1''), (''level'', GoInt64 3)]]"

definition knownRows :: "bigqueryrow list" where
  "knownRows = [[(''name'', GoString ''span1'')]]"

definition mapRows :: "bigqueryrow list" where
  "mapRows = [[(''name'', GoString ''span1''), (''tags'', GoMap [(''a'', ValueInt 1)])]]"

text \<open>Trace data with one span that has a bytes attribute.\<close>

definition bytesTraces :: Traces where
  "bytesTraces =
     [\<lparr>ResourceAttributes = [],
       ScopeSpansOf = [\<lparr>Spans = [\<lparr>SpanName = ''span1'',
                                   SpanAttributes = [(''payload'', ValueBytes [1, 2])]\<rparr>]\<rparr>]\<rparr>]"

text \<open>The variables of \<open>updateSchema\<close> when the field \<open>name\<close> is known as a string.\<close>

definition exampleVars :: vars where
  "exampleVars =
     \<lparr>knownFields = (\<lambda>k. k = ''name''),
      knownFieldsTypes = (\<lambda>k. if k = ''name'' then ''string'' else []),
      newFields = [], metaUpdateSchema = exampleSchema, history = [EvMetadata]\<rparr>"

definition fixedConfig :: Config where
  "fixedConfig = \<lparr>ProjectID = ''msyvr'', Dataset = ''otelex'', Table = ''spattex'',
                   SchemaFlexible = False\<rparr>"

definition flexibleConfig :: Config where
  "flexibleConfig = \<lparr>ProjectID = ''msyvr'', Dataset = ''otelex'', Table = ''spattex'',
                   SchemaFlexible = True\<rparr>"

section \<open>Field-name sanitization\<close>

lemma strings_Replace_single:
  "strings_Replace s [a] [b] = map (\<lambda>c. if c = a then b else c) s"
  by (induction s) auto

lemma sanitize_map: "sanitize k = map (\<lambda>c. if c = CHR ''.'' then CHR ''_'' else c) k"
  by (simp add: sanitize_def strings_Replace_single)

text \<open>
  C9: replacing every \<open>.\<close> by \<open>_\<close> is idempotent, and \<open>service.name\<close> becomes
  \<open>service_name\<close>.
\<close>

theorem sanitize_idempotent:
  "sanitize (sanitize k) = sanitize k \<and> sanitize ''service.name'' = ''service_name''"
  by (simp add: sanitize_map)

section \<open>The row builder\<close>

lemma map_of_addKeyValue:
  "map_of (addKeyValue row k v) =
     (case stored v of None \<Rightarrow> map_of row | Some x \<Rightarrow> (map_of row)(sanitize k \<mapsto> x))"
  by (cases v) (simp_all add: addKeyValue_def update_conv')

lemma rangeAdd_Nil: "rangeAdd [] row = row"
  by (simp add: rangeAdd_def)

lemma rangeAdd_Cons: "rangeAdd ((k, v) # attrs) row = rangeAdd attrs (addKeyValue row k v)"
  by (simp add: rangeAdd_def)

lemma rangeAdd_append: "rangeAdd (xs @ ys) row = rangeAdd ys (rangeAdd xs row)"
  by (simp add: rangeAdd_def)

lemma rangeAdd_no_write:
  "\<not> writes n attrs \<Longrightarrow> map_of (rangeAdd attrs row) n = map_of row n"
proof (induction attrs arbitrary: row)
  case Nil
  then show ?case by (simp add: rangeAdd_Nil)
next
  case (Cons a attrs)
  obtain k v where a: "a = (k, v)" by (cases a)
  from Cons.prems have nw: "\<not> writes n attrs" and here: "sanitize k = n \<longrightarrow> stored v = None"
    by (auto simp: writes_def a)
  have "map_of (rangeAdd (a # attrs) row) n = map_of (addKeyValue row k v) n"
    using Cons.IH [OF nw] by (simp add: a rangeAdd_Cons)
  also have "\<dots> = map_of row n"
    using here by (auto simp: map_of_addKeyValue split: option.splits)
  finally show ?case .
qed

lemma rangeAdd_last_write:
  assumes "attrs = pre @ (k, v) # post" and "stored v = Some x" and "\<not> writes (sanitize k) post"
  shows "map_of (rangeAdd attrs row) (sanitize k) = Some x"
proof -
  have "map_of (rangeAdd attrs row) (sanitize k)
      = map_of (addKeyValue (rangeAdd pre row) k v) (sanitize k)"
    using assms(3) by (simp add: assms(1) rangeAdd_append rangeAdd_Cons rangeAdd_no_write)
  then show ?thesis by (simp add: map_of_addKeyValue assms(2))
qed

lemma spansLoop_eq: "spansLoop rspan spans rows = rows @ map (spanRow rspan) spans"
  unfolding spansLoop_def by (induction spans arbitrary: rows) simp_all

lemma scopeLoop_eq:
  "scopeLoop rspan sspans rows = rows @ map (spanRow rspan) (concat (map Spans sspans))"
  unfolding scopeLoop_def by (induction sspans arbitrary: rows) (simp_all add: spansLoop_eq)

lemma buildRows_fold:
  "fold (\<lambda>rspan rows. scopeLoop rspan (ScopeSpansOf rspan) rows) td rows
     = rows @ map (\<lambda>p. spanRow (fst p) (snd p)) (leafRecords td)"
  by (induction td arbitrary: rows) (simp_all add: leafRecords_def scopeLoop_eq comp_def)

lemma buildRows_leafRecords:
  "buildRows td = map (\<lambda>p. spanRow (fst p) (snd p)) (leafRecords td)"
  by (simp add: buildRows_def buildRows_fold)

lemma spanRow_name:
  assumes "\<not> writes ''name'' (ResourceAttributes rspan)" and "\<not> writes ''name'' (SpanAttributes span)"
  shows "map_of (spanRow rspan span) ''name'' = Some (GoString (SpanName span))"
  using assms by (simp add: spanRow_def rangeAdd_no_write)

text \<open>
  C4, as the code has it: \<open>addKeyValue\<close> has no \<open>default\<close> case and nothing in it fails.
  For an attribute value whose type tag is none of the seven recognized kinds (an empty
  value), it returns with the row unchanged: the field is left out of the row.
\<close>

theorem addKeyValue_unrecognized:
  "valueType v \<notin> {ValueTypeBool, ValueTypeInt, ValueTypeDouble, ValueTypeStr,
                    ValueTypeBytes, ValueTypeSlice, ValueTypeMap}
   \<Longrightarrow> addKeyValue row k v = row"
  by (cases v) (simp_all add: addKeyValue_def)

theorem addKeyValue_unrecognized_witness:
  "valueType ValueEmpty \<notin> {ValueTypeBool, ValueTypeInt, ValueTypeDouble, ValueTypeStr,
                    ValueTypeBytes, ValueTypeSlice, ValueTypeMap}
   \<and> addKeyValue [(''name'', GoString ''span1'')] ''http.route'' ValueEmpty
       = [(''name'', GoString ''span1'')]"
  using addKeyValue_unrecognized [of ValueEmpty "[(''name'', GoString ''span1'')]" "''http.route''"]
  by simp

text \<open>The claim that the builder fails on such a value is refuted by a span with one empty
  attribute: \<open>buildRows\<close> returns its row, without the field.\<close>

theorem empty_value_dropped_counterexample:
  "buildRows [\<lparr>ResourceAttributes = [],
               ScopeSpansOf = [\<lparr>Spans = [\<lparr>SpanName = ''span1'',
                                           SpanAttributes = [(''attr'', ValueEmpty)]\<rparr>]\<rparr>]\<rparr>]
     = [[(''name'', GoString ''span1'')]]"
  by (simp add: buildRows_def scopeLoop_def spansLoop_def spanRow_def rangeAdd_def addKeyValue_def)

text \<open>
  C7, as the code has it: \<open>buildRows\<close> returns one row per span, in traversal order, the
  \<open>i\<close>-th row being the row of the \<open>i\<close>-th span; trace data without spans give no rows.
  The row's \<open>name\<close> field is the span's name provided that no attribute of the resource or
  of the span is written under the field name \<open>name\<close>: the name is written first, and an
  attribute written later under that name replaces it.
\<close>

theorem buildRows_one_row_per_span:
  "length (buildRows td) = length (leafRecords td)
   \<and> (\<forall>i < length (leafRecords td).
         buildRows td ! i = spanRow (fst (leafRecords td ! i)) (snd (leafRecords td ! i))
         \<and> (\<not> writes ''name'' (ResourceAttributes (fst (leafRecords td ! i)))
              \<and> \<not> writes ''name'' (SpanAttributes (snd (leafRecords td ! i)))
            \<longrightarrow> map_of (buildRows td ! i) ''name''
                  = Some (GoString (SpanName (snd (leafRecords td ! i))))))
   \<and> (leafRecords td = [] \<longrightarrow> buildRows td = [])"
  by (simp add: buildRows_leafRecords spanRow_name)

theorem buildRows_one_row_per_span_witness:
  "length (buildRows
     [\<lparr>ResourceAttributes = [(''service.name'', ValueStr ''svc1'')],
       ScopeSpansOf = [\<lparr>Spans =
         [\<lparr>SpanName = ''span1'',
           SpanAttributes = [(''str_key'', ValueStr ''value1''), (''int_key'', ValueInt 41)]\<rparr>,
          \<lparr>SpanName = ''span2'', SpanAttributes = [(''str_key'', ValueStr ''value2'')]\<rparr>]\<rparr>]\<rparr>]) = 2
   \<and> map_of (buildRows
     [\<lparr>ResourceAttributes = [(''service.name'', ValueStr ''svc1'')],
       ScopeSpansOf = [\<lparr>Spans =
         [\<lparr>SpanName = ''span1'',
           SpanAttributes = [(''str_key'', ValueStr ''value1''), (''int_key'', ValueInt 41)]\<rparr>,
          \<lparr>SpanName = ''span2'', SpanAttributes = [(''str_key'', ValueStr ''value2'')]\<rparr>]\<rparr>]\<rparr>] ! 1)
       ''name'' = Some (GoString ''span2'')"
proof -
  let ?s1 = "\<lparr>SpanName = ''span1'',
           SpanAttributes = [(''str_key'', ValueStr ''value1''), (''int_key'', ValueInt 41)]\<rparr>"
  let ?s2 = "\<lparr>SpanName = ''span2'', SpanAttributes = [(''str_key'', ValueStr ''value2'')]\<rparr>"
  let ?r = "\<lparr>ResourceAttributes = [(''service.name'', ValueStr ''svc1'')],
       ScopeSpansOf = [\<lparr>Spans = [?s1, ?s2]\<rparr>]\<rparr>"
  have lr: "leafRecords [?r] = [(?r, ?s1), (?r, ?s2)]"
    by (simp add: leafRecords_def)
  have nw: "\<not> writes ''name'' (ResourceAttributes ?r)" "\<not> writes ''name'' (SpanAttributes ?s2)"
    by (simp_all add: writes_def sanitize_map)
  note t = buildRows_one_row_per_span [of "[?r]"]
  from t have len: "length (buildRows [?r]) = 2"
    by (simp add: lr)
  from t have "\<forall>i < length (leafRecords [?r]).
         \<not> writes ''name'' (ResourceAttributes (fst (leafRecords [?r] ! i)))
              \<and> \<not> writes ''name'' (SpanAttributes (snd (leafRecords [?r] ! i)))
            \<longrightarrow> map_of (buildRows [?r] ! i) ''name''
                  = Some (GoString (SpanName (snd (leafRecords [?r] ! i))))"
    by blast
  then have "\<not> writes ''name'' (ResourceAttributes (fst (leafRecords [?r] ! 1)))
              \<and> \<not> writes ''name'' (SpanAttributes (snd (leafRecords [?r] ! 1)))
            \<longrightarrow> map_of (buildRows [?r] ! 1) ''name''
                  = Some (GoString (SpanName (snd (leafRecords [?r] ! 1))))"
    by (simp add: lr)
  with nw have "map_of (buildRows [?r] ! 1) ''name'' = Some (GoString ''span2'')"
    by (simp add: lr)
  with len show ?thesis by simp
qed

text \<open>A span attribute with the key \<open>name\<close> replaces the span's name in the row.\<close>

theorem name_overwritten_counterexample:
  "map_of (buildRows [\<lparr>ResourceAttributes = [],
               ScopeSpansOf = [\<lparr>Spans = [\<lparr>SpanName = ''span1'',
                                           SpanAttributes = [(''name'', ValueStr ''other'')]\<rparr>]\<rparr>]\<rparr>] ! 0)
      ''name'' = Some (GoString ''other'')"
  by (simp add: buildRows_def scopeLoop_def spansLoop_def spanRow_def rangeAdd_def addKeyValue_def
        sanitize_map)

text \<open>
  C8, as the code has it: the row holds, under a field name, the value of the last span
  attribute that is written under it (one whose value has a recognized kind), whatever
  the resource attributes are: the resource's attributes are written first, the span's
  second.
\<close>

theorem leaf_overrides_resource:
  "SpanAttributes span = pre @ (k, v) # post \<Longrightarrow> stored v = Some x
   \<Longrightarrow> \<not> writes (sanitize k) post
   \<Longrightarrow> map_of (spanRow rspan span) (sanitize k) = Some x"
  unfolding spanRow_def by (rule rangeAdd_last_write)

theorem leaf_overrides_resource_witness:
  "map_of (spanRow \<lparr>ResourceAttributes = [(''service.name'', ValueStr ''resource'')],
                    ScopeSpansOf = []\<rparr>
                  \<lparr>SpanName = ''span1'',
                    SpanAttributes = [(''a'', ValueInt 1), (''service_name'', ValueStr ''leaf'')]\<rparr>)
      ''service_name'' = Some (GoString ''leaf'')"
proof -
  have "map_of (spanRow \<lparr>ResourceAttributes = [(''service.name'', ValueStr ''resource'')],
                    ScopeSpansOf = []\<rparr>
                  \<lparr>SpanName = ''span1'',
                    SpanAttributes = [(''a'', ValueInt 1), (''service_name'', ValueStr ''leaf'')]\<rparr>)
      (sanitize ''service_name'') = Some (GoString ''leaf'')"
    by (rule leaf_overrides_resource [where pre = "[(''a'', ValueInt 1)]" and post = "[]"
          and v = "ValueStr ''leaf''"])
       (simp_all add: writes_def)
  then show ?thesis by (simp add: sanitize_map)
qed

text \<open>A span attribute with an empty value is not written, and the row keeps the value
  of the resource's attribute of the same name.\<close>

theorem empty_leaf_keeps_resource_counterexample:
  "map_of (buildRows [\<lparr>ResourceAttributes = [(''region'', ValueStr ''resource'')],
               ScopeSpansOf = [\<lparr>Spans = [\<lparr>SpanName = ''span1'',
                                           SpanAttributes = [(''region'', ValueEmpty)]\<rparr>]\<rparr>]\<rparr>] ! 0)
      ''region'' = Some (GoString ''resource'')"
  by (simp add: buildRows_def scopeLoop_def spansLoop_def spanRow_def rangeAdd_def addKeyValue_def
        sanitize_map)

section \<open>Schema synchronization\<close>

subsection \<open>The loops of updateSchema\<close>

lemma calls_append: "calls (xs @ ys) = calls xs @ calls ys"
  by (simp add: calls_def)

lemma in_calls: "e \<in> set tr \<Longrightarrow> isCall e \<Longrightarrow> e \<in> set (calls tr)"
  by (simp add: calls_def)

lemma fieldStep_known:
  "knownFields v k \<Longrightarrow>
   fieldStep (k, x) v =
     (if knownFieldsTypes v k \<noteq> typeString x
      then v\<lparr>history := history v @ [EvPrint (FieldTypeMismatch k (typeString x))]\<rparr> else v)"
  by (simp add: fieldStep_def Let_def)

lemma fieldStep_new:
  "\<not> knownFields v k \<Longrightarrow>
   fieldStep (k, x) v =
     v\<lparr>history := history v
          @ (if snd (newFieldType k x) then [EvPrint (UnsupportedType k (typeString x))] else [])
          @ [EvPrint (UpdatingField k (fst (newFieldType k x)))],
       metaUpdateSchema := metaUpdateSchema v
          @ [\<lparr>Name = k, Type = fst (newFieldType k x), Required = False\<rparr>],
       knownFields := (knownFields v)(k := True),
       knownFieldsTypes := (knownFieldsTypes v)(k := typeString x),
       newFields := List.insert k (newFields v)\<rparr>"
  by (cases "newFieldType k x") (simp add: fieldStep_def Let_def)

text \<open>What the loop over the entries appends to \<open>metaUpdate.Schema\<close>.\<close>

lemma stage_Cons:
  "stage kf (kv # kvs) = stage kf [kv] @ stage (kf(fst kv := True)) kvs"
proof (cases "kf (fst kv)")
  case True
  then have "kf(fst kv := True) = kf" by (auto simp: fun_eq_iff)
  with True show ?thesis by simp
next
  case False
  then show ?thesis by simp
qed

lemma stage_names:
  "set (map Name (stage kf kvs)) = {k \<in> fst ` set kvs. \<not> kf k}"
proof (induction kvs arbitrary: kf)
  case Nil
  show ?case by simp
next
  case (Cons kv kvs)
  show ?case
  proof (cases "kf (fst kv)")
    case True
    have ih: "set (map Name (stage kf kvs)) = {k \<in> fst ` set kvs. \<not> kf k}"
      by (rule Cons.IH)
    from True have "stage kf (kv # kvs) = stage kf kvs" by simp
    with ih True show ?thesis by auto
  next
    case False
    have ih: "set (map Name (stage (kf(fst kv := True)) kvs))
        = {k \<in> fst ` set kvs. \<not> (kf(fst kv := True)) k}"
      by (rule Cons.IH)
    from False have "set (map Name (stage kf (kv # kvs)))
        = insert (fst kv) (set (map Name (stage (kf(fst kv := True)) kvs)))"
      by simp
    also have "\<dots> = insert (fst kv) {k \<in> fst ` set kvs. \<not> (kf(fst kv := True)) k}"
      by (simp only: ih)
    also have "\<dots> = {k \<in> fst ` set (kv # kvs). \<not> kf k}"
      using False by auto
    finally show ?thesis .
  qed
qed

lemma stage_distinct: "distinct (map Name (stage kf kvs))"
proof (induction kvs arbitrary: kf)
  case Nil
  show ?case by simp
next
  case (Cons kv kvs)
  show ?case
  proof (cases "kf (fst kv)")
    case True
    then have "stage kf (kv # kvs) = stage kf kvs" by simp
    then show ?thesis by (simp only: Cons.IH)
  next
    case False
    let ?f = "\<lparr>Name = fst kv, Type = fst (newFieldType (fst kv) (snd kv)), Required = False\<rparr>"
    let ?rest = "stage (kf(fst kv := True)) kvs"
    have e: "stage kf (kv # kvs) = ?f # ?rest" using False by simp
    have d: "distinct (map Name ?rest)" by (rule Cons.IH)
    have n: "Name ?f \<notin> set (map Name ?rest)"
      unfolding stage_names by simp
    have "distinct (map Name (?f # ?rest))"
      using d n by (simp only: list.map distinct.simps) simp
    then show ?thesis by (simp only: e)
  qed
qed

lemma stage_nullable: "list_all (\<lambda>f. \<not> Required f) (stage kf kvs)"
  by (induction kvs arbitrary: kf) simp_all

lemma stage_append:
  "stage kf (xs @ ys) = stage kf xs @ stage (\<lambda>k. kf k \<or> k \<in> fst ` set xs) ys"
proof (induction xs arbitrary: kf)
  case Nil
  show ?case by simp
next
  case (Cons kv xs)
  have e: "(\<lambda>k. (kf(fst kv := True)) k \<or> k \<in> fst ` set xs)
         = (\<lambda>k. kf k \<or> k \<in> fst ` set (kv # xs))"
    by (auto simp: fun_eq_iff)
  have "stage kf ((kv # xs) @ ys) = stage kf [kv] @ stage (kf(fst kv := True)) (xs @ ys)"
    using stage_Cons [of kf kv "xs @ ys"] by simp
  also have "\<dots> = stage kf [kv] @ stage (kf(fst kv := True)) xs
                   @ stage (\<lambda>k. kf k \<or> k \<in> fst ` set (kv # xs)) ys"
    by (simp only: Cons.IH e)
  also have "\<dots> = stage kf (kv # xs) @ stage (\<lambda>k. kf k \<or> k \<in> fst ` set (kv # xs)) ys"
    using stage_Cons [of kf kv xs] by simp
  finally show ?case .
qed

lemma stage_first:
  assumes "kvs = pre @ (k, x) # post" and "k \<notin> fst ` set pre" and "\<not> kf k"
  shows "\<lparr>Name = k, Type = fst (newFieldType k x), Required = False\<rparr> \<in> set (stage kf kvs)"
proof -
  have "\<not> (kf k \<or> k \<in> fst ` set pre)" using assms by simp
  then have "\<lparr>Name = k, Type = fst (newFieldType k x), Required = False\<rparr>
      \<in> set (stage (\<lambda>k. kf k \<or> k \<in> fst ` set pre) ((k, x) # post))"
    by simp
  then show ?thesis by (simp add: assms(1) stage_append)
qed

lemma stage_empty_iff:
  "stage (\<lambda>k. k \<in> set names) (concat rows) = [] \<longleftrightarrow> set (batchKeys rows) \<subseteq> set names"
proof -
  have "stage (\<lambda>k. k \<in> set names) (concat rows) = []
      \<longleftrightarrow> set (map Name (stage (\<lambda>k. k \<in> set names) (concat rows))) = {}"
    by simp
  also have "\<dots> \<longleftrightarrow> set (batchKeys rows) \<subseteq> set names"
    unfolding stage_names batchKeys_def by auto
  finally show ?thesis .
qed

lemma fieldStep_facts:
  "(\<exists>p. history (fieldStep kv v) = history v @ p \<and> calls p = [])
     \<and> metaUpdateSchema (fieldStep kv v) = metaUpdateSchema v @ stage (knownFields v) [kv]
     \<and> knownFields (fieldStep kv v) = (knownFields v)(fst kv := True)
     \<and> set (newFields (fieldStep kv v))
         = set (newFields v) \<union> set (map Name (stage (knownFields v) [kv]))"
proof (cases "knownFields v (fst kv)")
  case True
  have s: "fieldStep kv v =
     (if knownFieldsTypes v (fst kv) \<noteq> typeString (snd kv)
      then v\<lparr>history := history v @ [EvPrint (FieldTypeMismatch (fst kv) (typeString (snd kv)))]\<rparr>
      else v)"
    using fieldStep_known [OF True, of "snd kv"] by simp
  have "\<exists>p. history (fieldStep kv v) = history v @ p \<and> calls p = []"
    by (simp add: s calls_def)
  moreover have "knownFields (fieldStep kv v) = (knownFields v)(fst kv := True)"
    using True by (auto simp: s fun_eq_iff)
  ultimately show ?thesis using True by (simp add: s)
next
  case False
  note s = fieldStep_new [OF False, of "snd kv", simplified]
  have "\<exists>p. history (fieldStep kv v) = history v @ p \<and> calls p = []"
    by (simp add: s calls_def)
  then show ?thesis using False by (simp add: s)
qed

lemma fold_fieldStep_facts:
  "(\<exists>p. history (fold fieldStep kvs v) = history v @ p \<and> calls p = [])
     \<and> metaUpdateSchema (fold fieldStep kvs v) = metaUpdateSchema v @ stage (knownFields v) kvs
     \<and> knownFields (fold fieldStep kvs v) = (\<lambda>k. knownFields v k \<or> k \<in> fst ` set kvs)
     \<and> set (newFields (fold fieldStep kvs v))
         = set (newFields v) \<union> set (map Name (stage (knownFields v) kvs))"
proof (induction kvs arbitrary: v)
  case Nil
  show ?case by (simp add: calls_def)
next
  case (Cons kv kvs)
  let ?v1 = "fieldStep kv v"
  let ?v2 = "fold fieldStep kvs ?v1"
  have fo: "fold fieldStep (kv # kvs) v = ?v2" by simp
  note f = fieldStep_facts [of kv v]
  note ih = Cons.IH [of ?v1]
  from f obtain p1 where p1: "history ?v1 = history v @ p1" "calls p1 = []" by blast
  from ih obtain p2 where p2: "history ?v2 = history ?v1 @ p2" "calls p2 = []"
    by blast
  have k1: "knownFields ?v1 = (knownFields v)(fst kv := True)" using f by blast
  have m1: "metaUpdateSchema ?v1 = metaUpdateSchema v @ stage (knownFields v) [kv]"
    using f by blast
  have n1: "set (newFields ?v1) = set (newFields v) \<union> set (map Name (stage (knownFields v) [kv]))"
    using f by blast
  have m2: "metaUpdateSchema ?v2 = metaUpdateSchema ?v1 @ stage (knownFields ?v1) kvs"
    using ih by blast
  have k2: "knownFields ?v2 = (\<lambda>k. knownFields ?v1 k \<or> k \<in> fst ` set kvs)"
    using ih by blast
  have n2: "set (newFields ?v2)
      = set (newFields ?v1) \<union> set (map Name (stage (knownFields ?v1) kvs))"
    using ih by blast
  have sc: "stage (knownFields v) (kv # kvs)
      = stage (knownFields v) [kv] @ stage (knownFields ?v1) kvs"
    unfolding k1 by (rule stage_Cons)
  have h: "\<exists>p. history ?v2 = history v @ p \<and> calls p = []"
    using p1 p2 by (intro exI [of _ "p1 @ p2"]) (simp add: calls_append)
  have m: "metaUpdateSchema ?v2 = metaUpdateSchema v @ stage (knownFields v) (kv # kvs)"
    unfolding m2 m1 sc by simp
  have k: "knownFields ?v2 = (\<lambda>k. knownFields v k \<or> k \<in> fst ` set (kv # kvs))"
    unfolding k2 k1 by (auto simp: fun_eq_iff)
  have n: "set (newFields ?v2)
         = set (newFields v) \<union> set (map Name (stage (knownFields v) (kv # kvs)))"
    unfolding n2 n1 sc by (simp add: Un_assoc)
  from h m k n show ?case unfolding fo by blast
qed

lemma rowsLoop_concat: "rowsLoop rows v = fold fieldStep (concat rows) v"
  unfolding rowsLoop_def by (induction rows arbitrary: v) simp_all

text \<open>The loop over \<open>meta.Schema\<close> succeeds exactly on schemas of permitted field types,
  and then has recorded the schema's names as known.\<close>

lemma knownField_cases:
  "knownField field v =
     (if permitted field
      then Inr (v\<lparr>knownFields := (knownFields v)(Name field := True),
                  knownFieldsTypes := knownFieldsTypes (projr (knownField field v))\<rparr>)
      else Inl (''BigQuery field type '' @ Type field
                  @ '' incompatible with span attribute value types''))"
  unfolding permitted_def knownField_def Let_def
  by simp

lemma knownField_Inr:
  assumes "knownField field v = Inr v'"
  shows "permitted field \<and> knownFields v' = (knownFields v)(Name field := True)
    \<and> newFields v' = newFields v \<and> metaUpdateSchema v' = metaUpdateSchema v
    \<and> history v' = history v"
proof (cases "permitted field")
  case True
  with knownField_cases [of field v] assms
  have "\<exists>kft. v' = v\<lparr>knownFields := (knownFields v)(Name field := True),
                  knownFieldsTypes := kft\<rparr>"
    by (intro exI [of _ "knownFieldsTypes v'"]) simp
  then obtain kft where "v' = v\<lparr>knownFields := (knownFields v)(Name field := True),
                  knownFieldsTypes := kft\<rparr>" ..
  with True show ?thesis by simp
next
  case False
  with knownField_cases [of field v] assms show ?thesis by simp
qed

lemma knownLoop_Inr:
  "knownLoop fs v = Inr v' \<Longrightarrow>
     list_all permitted fs
     \<and> knownFields v' = (\<lambda>k. knownFields v k \<or> k \<in> set (map Name fs))
     \<and> newFields v' = newFields v \<and> metaUpdateSchema v' = metaUpdateSchema v
     \<and> history v' = history v"
proof (induction fs arbitrary: v)
  case Nil
  then show ?case by simp
next
  case (Cons f fs)
  from Cons.prems obtain v1 where s: "knownField f v = Inr v1" and r: "knownLoop fs v1 = Inr v'"
    by (auto split: sum.splits)
  note k = knownField_Inr [OF s]
  have ih: "list_all permitted fs
     \<and> knownFields v' = (\<lambda>k. knownFields v1 k \<or> k \<in> set (map Name fs))
     \<and> newFields v' = newFields v1 \<and> metaUpdateSchema v' = metaUpdateSchema v1
     \<and> history v' = history v1"
    using r by (rule Cons.IH)
  from k have k1: "knownFields v1 = (knownFields v)(Name f := True)" by blast
  have "knownFields v' = (\<lambda>k. knownFields v k \<or> k \<in> set (map Name (f # fs)))"
    using ih unfolding k1 by (auto simp: fun_eq_iff)
  with ih k show ?case by simp
qed

lemma knownLoop_Inl:
  "knownLoop fs v = Inl err \<Longrightarrow> \<not> list_all permitted fs"
proof (induction fs arbitrary: v)
  case Nil
  then show ?case by simp
next
  case (Cons f fs)
  show ?case
  proof (cases "knownField f v")
    case (Inl e)
    have "\<not> permitted f"
    proof
      assume "permitted f"
      with knownField_cases [of f v] obtain x where "knownField f v = Inr x" by simp
      with Inl show False by simp
    qed
    then show ?thesis by simp
  next
    case (Inr v1)
    with Cons.prems have "knownLoop fs v1 = Inl err" by simp
    then have "\<not> list_all permitted fs" by (rule Cons.IH)
    then show ?thesis by simp
  qed
qed

subsection \<open>The three outcomes of updateSchema\<close>

lemma updateSchema_fetch_fails:
  "Metadata table tr = Inl err \<Longrightarrow>
   updateSchema table tr rows = (Some (''table metadata: '' @ err), tr @ [EvMetadata])"
  by (simp add: updateSchema_def)

lemma updateSchema_guard:
  assumes "Metadata table tr = Inr meta" and "\<not> list_all permitted (Schema meta)"
  shows "\<exists>err. updateSchema table tr rows = (Some err, tr @ [EvMetadata])"
proof (cases "knownLoop (Schema meta) (initVars meta tr)")
  case (Inl e)
  with assms(1) show ?thesis by (simp add: updateSchema_def)
next
  case (Inr v0)
  from knownLoop_Inr [OF this] assms(2) show ?thesis by simp
qed

lemma updateSchema_sync:
  assumes m: "Metadata table tr = Inr meta" and p: "list_all permitted (Schema meta)"
  shows "\<exists>q. calls q = [EvMetadata] \<and>
     updateSchema table tr rows =
       (let staged = stage (\<lambda>k. k \<in> set (map Name (Schema meta))) (concat rows) in
        if staged = [] then (None, tr @ q)
        else (case Update table (tr @ q) (Schema meta @ staged) (ETag meta) of
                None \<Rightarrow> None
              | Some err \<Rightarrow> Some (''unable to update schema: '' @ err),
              tr @ q @ [EvUpdate (Schema meta @ staged) (ETag meta)]))"
proof -
  let ?staged = "stage (\<lambda>k. k \<in> set (map Name (Schema meta))) (concat rows)"
  obtain v0 where v0: "knownLoop (Schema meta) (initVars meta tr) = Inr v0"
    using p knownLoop_Inl [of "Schema meta" "initVars meta tr"]
    by (cases "knownLoop (Schema meta) (initVars meta tr)") auto
  from knownLoop_Inr [OF v0]
  have k0: "knownFields v0 = (\<lambda>k. k \<in> set (map Name (Schema meta)))"
    and n0: "newFields v0 = []" and s0: "metaUpdateSchema v0 = Schema meta"
    and h0: "history v0 = tr @ [EvMetadata]"
    by (simp_all add: initVars_def)
  let ?v = "rowsLoop rows v0"
  have r: "?v = fold fieldStep (concat rows) v0"
    by (rule rowsLoop_concat)
  note f = fold_fieldStep_facts [of "concat rows" v0]
  from f obtain pr where pr: "history ?v = history v0 @ pr" "calls pr = []"
    unfolding r by blast
  have ms: "metaUpdateSchema ?v = Schema meta @ ?staged"
    using f unfolding r k0 s0 by blast
  have "set (newFields ?v) = set (map Name ?staged)"
    using f unfolding r k0 n0 by simp
  then have ne: "newFields ?v = [] \<longleftrightarrow> ?staged = []"
    by (metis map_is_Nil_conv set_empty)
  show ?thesis
  proof (cases "?staged = []")
    case True
    have "calls ([EvMetadata] @ pr) = [EvMetadata]"
      using pr(2) by (simp add: calls_append) (simp add: calls_def)
    moreover have "updateSchema table tr rows = (None, tr @ [EvMetadata] @ pr)"
      using True ne by (simp add: updateSchema_def m v0 Let_def pr(1) h0)
    ultimately show ?thesis using True by (intro exI [of _ "[EvMetadata] @ pr"]) simp
  next
    case False
    let ?q = "[EvMetadata] @ pr @ [EvPrint (UpdatingSchema (length (newFields ?v)))]"
    have c: "calls ?q = [EvMetadata]"
      using pr(2) by (simp add: calls_append) (simp add: calls_def)
    have "updateSchema table tr rows =
       (case Update table (tr @ ?q) (Schema meta @ ?staged) (ETag meta) of
                None \<Rightarrow> None
              | Some err \<Rightarrow> Some (''unable to update schema: '' @ err),
              tr @ ?q @ [EvUpdate (Schema meta @ ?staged) (ETag meta)])"
      using False ne
      by (cases "Update table (tr @ ?q) (Schema meta @ ?staged) (ETag meta)")
         (simp_all add: updateSchema_def m v0 Let_def pr(1) h0 ms)
    with c False show ?thesis by (intro exI [of _ ?q]) simp
  qed
qed

lemma updateSchema_events:
  "\<exists>q. snd (updateSchema table tr rows) = tr @ q \<and>
    (calls q = [EvMetadata] \<or>
     (\<exists>meta staged. Metadata table tr = Inr meta
        \<and> calls q = [EvMetadata, EvUpdate (Schema meta @ staged) (ETag meta)]))"
proof (cases "Metadata table tr")
  case (Inl err)
  from updateSchema_fetch_fails [OF this, of rows] show ?thesis
    by (intro exI [of _ "[EvMetadata]"]) (simp add: calls_def)
next
  case (Inr meta)
  show ?thesis
  proof (cases "list_all permitted (Schema meta)")
    case False
    from updateSchema_guard [OF Inr False, of rows] show ?thesis
      by (intro exI [of _ "[EvMetadata]"]) (auto simp: calls_def)
  next
    case True
    let ?staged = "stage (\<lambda>k. k \<in> set (map Name (Schema meta))) (concat rows)"
    from updateSchema_sync [OF Inr True, of rows] obtain q where
      q: "calls q = [EvMetadata]" and
      u: "updateSchema table tr rows =
        (if ?staged = [] then (None, tr @ q)
         else (case Update table (tr @ q) (Schema meta @ ?staged) (ETag meta) of
                None \<Rightarrow> None
              | Some err \<Rightarrow> Some (''unable to update schema: '' @ err),
              tr @ q @ [EvUpdate (Schema meta @ ?staged) (ETag meta)]))"
      unfolding Let_def by blast
    show ?thesis
    proof (cases "?staged = []")
      case True
      with u q show ?thesis by (intro exI [of _ q]) simp
    next
      case False
      have "calls (q @ [EvUpdate (Schema meta @ ?staged) (ETag meta)])
          = [EvMetadata, EvUpdate (Schema meta @ ?staged) (ETag meta)]"
        using q by (simp add: calls_append) (simp add: calls_def)
      with False u Inr show ?thesis
        by (intro exI [of _ "q @ [EvUpdate (Schema meta @ ?staged) (ETag meta)]"]) auto
    qed
  qed
qed

lemma updateSchema_calls:
  assumes "Metadata table tr = Inr meta" and "list_all permitted (Schema meta)"
  shows "calls (snd (updateSchema table tr rows))
      = calls tr @ [EvMetadata]
        @ (if set (batchKeys rows) \<subseteq> set (map Name (Schema meta)) then []
           else [EvUpdate
                   (Schema meta @ stage (\<lambda>k. k \<in> set (map Name (Schema meta))) (concat rows))
                   (ETag meta)])"
    and "set (batchKeys rows) \<subseteq> set (map Name (Schema meta))
      \<Longrightarrow> fst (updateSchema table tr rows) = None"
proof -
  let ?staged = "stage (\<lambda>k. k \<in> set (map Name (Schema meta))) (concat rows)"
  from updateSchema_sync [OF assms, of rows] obtain q where
    q: "calls q = [EvMetadata]" and
    u: "updateSchema table tr rows =
        (if ?staged = [] then (None, tr @ q)
         else (case Update table (tr @ q) (Schema meta @ ?staged) (ETag meta) of
                None \<Rightarrow> None
              | Some err \<Rightarrow> Some (''unable to update schema: '' @ err),
              tr @ q @ [EvUpdate (Schema meta @ ?staged) (ETag meta)]))"
    unfolding Let_def by blast
  note e = stage_empty_iff [of "map Name (Schema meta)" rows]
  show "calls (snd (updateSchema table tr rows))
      = calls tr @ [EvMetadata]
        @ (if set (batchKeys rows) \<subseteq> set (map Name (Schema meta)) then []
           else [EvUpdate (Schema meta @ ?staged) (ETag meta)])"
    using e q by (simp add: u calls_append) (simp add: calls_def)
  show "fst (updateSchema table tr rows) = None"
    if "set (batchKeys rows) \<subseteq> set (map Name (Schema meta))"
    using e that by (simp add: u)
qed

subsection \<open>Evaluation on the examples\<close>

lemmas fieldTypes =
  StringFieldType_def BigNumericFieldType_def BooleanFieldType_def BytesFieldType_def
  NumericFieldType_def TimestampFieldType_def

lemmas updateSchema_eval =
  updateSchema_def initVars_def knownField_def rowsLoop_def fieldStep_def newFieldType_def Let_def

lemma exampleSchema_permitted: "list_all permitted exampleSchema"
  by (simp add: exampleSchema_def permitted_def StringFieldType_def)

lemma example_updateSchema:
  "updateSchema exampleStore tr exampleRows
   = (None, tr @ [EvMetadata, EvPrint (UpdatingField ''level'' NumericFieldType),
             EvPrint (UpdatingSchema 1),
             EvUpdate (exampleSchema @ [\<lparr>Name = ''level'', Type = NumericFieldType, Required = False\<rparr>]) ''etag1''])"
  by (simp add: updateSchema_eval exampleStore_def exampleRows_def exampleSchema_def fieldTypes)

lemma lagging_updateSchema:
  "updateSchema laggingStore [EvPut exampleRows] exampleRows
   = (None, [EvPut exampleRows, EvMetadata])"
  by (simp add: updateSchema_def laggingStore_def exampleRows_def exampleSchema_def initVars_def
      knownField_def rowsLoop_def fieldStep_def newFieldType_def Let_def
      StringFieldType_def BigNumericFieldType_def BooleanFieldType_def BytesFieldType_def
      NumericFieldType_def TimestampFieldType_def)

lemma strings_Contains_prefix: "strings_Contains (sub @ rest) sub"
  by (simp add: strings_Contains_def)

lemma contains_example: "strings_Contains ''no such field: level'' ''no such field''"
  using strings_Contains_prefix [of "''no such field''" "'': level''"] by simp

subsection \<open>The type of a new field\<close>

lemma newFieldType_by_kind:
  "fst (newFieldType ''ts'' x) = TimestampFieldType"
  "key \<noteq> ''ts'' \<Longrightarrow> fst (newFieldType key (GoBool b)) = BooleanFieldType"
  "key \<noteq> ''ts'' \<Longrightarrow> fst (newFieldType key (GoFloat64 d)) = BigNumericFieldType"
  "key \<noteq> ''ts'' \<Longrightarrow> fst (newFieldType key (GoInt64 i)) = NumericFieldType"
  "key \<noteq> ''ts'' \<Longrightarrow> fst (newFieldType key (GoString s)) = StringFieldType"
  "key \<noteq> ''ts'' \<Longrightarrow> fst (newFieldType key (GoUint8 w)) = BytesFieldType"
  "key \<noteq> ''ts'' \<Longrightarrow> fst (newFieldType key (GoByteSlice bs)) = []"
  by (simp_all add: newFieldType_def)

lemma newFieldType_unsupported:
  assumes "key \<noteq> ''ts''"
    and "typeString value \<notin> {''bool'', ''float64'', ''int64'', ''string'', ''uint8''}"
  shows "newFieldType key value = ([], True)"
  using assms by (cases "value") (simp_all add: newFieldType_def)

text \<open>
  C3, at the input where the code departs from it: a bytes attribute is stored in the row
  as a \<open>pcommon.ByteSlice\<close>, which the case \<open>byte\<close> of the type switch does not match,
  so the new field is staged with the zero-value field type and not with
  \<open>BytesFieldType\<close>. (For bool, float64, int64 and string values and for the field
  \<open>ts\<close> the mapping is as claimed: \<open>newFieldType_by_kind\<close>.)
\<close>

theorem bytes_field_staged_without_type:
  "buildRows bytesTraces = [[(''name'', GoString ''span1''), (''payload'', GoByteSlice [1, 2])]]
   \<and> calls (snd (updateSchema exampleStore [] (buildRows bytesTraces)))
       = [EvMetadata,
          EvUpdate (exampleSchema @ [\<lparr>Name = ''payload'', Type = [], Required = False\<rparr>]) ''etag1'']
   \<and> BytesFieldType \<noteq> []"
proof -
  have b: "buildRows bytesTraces
      = [[(''name'', GoString ''span1''), (''payload'', GoByteSlice [1, 2])]]"
    by (simp add: bytesTraces_def buildRows_def scopeLoop_def spansLoop_def spanRow_def
        rangeAdd_def addKeyValue_def sanitize_map)
  have "calls (snd (updateSchema exampleStore []
           [[(''name'', GoString ''span1''), (''payload'', GoByteSlice [1, 2])]]))
       = [EvMetadata,
          EvUpdate (exampleSchema @ [\<lparr>Name = ''payload'', Type = [], Required = False\<rparr>]) ''etag1'']"
    by (simp add: updateSchema_eval exampleStore_def exampleSchema_def fieldTypes calls_def)
  with b show ?thesis by (simp add: BytesFieldType_def)
qed

text \<open>
  C10: for a field that is not \<open>ts\<close> and holds a value that is not a bool, float64,
  int64, string or byte, the loop body, when the field is new (not known), neither skips
  it nor fails: it appends a definition with the zero-value field type to the schema and
  records the field as new. And when the metadata is fetched and its schema has passed
  the loop over \<open>meta.Schema\<close>, such a field, new where the loops first meet its name
  (absent from the fetched schema and from the entries before it), is in the alteration
  request that is sent; \<open>updateSchema\<close> then returns an error only if the store rejects
  that request.
\<close>

theorem unsupported_type_staged:
  assumes k: "key \<noteq> ''ts''"
    and t: "typeString value \<notin> {''bool'', ''float64'', ''int64'', ''string'', ''uint8''}"
  shows
   "(\<not> knownFields v key \<longrightarrow>
       metaUpdateSchema (fieldStep (key, value) v)
         = metaUpdateSchema v @ [\<lparr>Name = key, Type = [], Required = False\<rparr>]
       \<and> key \<in> set (newFields (fieldStep (key, value) v)))
    \<and> (Metadata table tr = Inr meta \<and> list_all permitted (Schema meta)
        \<and> concat rows = pre @ (key, value) # post \<and> key \<notin> fst ` set pre
        \<and> key \<notin> set (map Name (Schema meta)) \<longrightarrow>
       (\<exists>q sch.
          snd (updateSchema table tr rows) = tr @ q @ [EvUpdate sch (ETag meta)]
          \<and> calls q = [EvMetadata]
          \<and> \<lparr>Name = key, Type = [], Required = False\<rparr> \<in> set sch
          \<and> fst (updateSchema table tr rows)
              = (case Update table (tr @ q) sch (ETag meta) of
                   None \<Rightarrow> None
                 | Some err \<Rightarrow> Some (''unable to update schema: '' @ err))))"
proof -
  note ty = newFieldType_unsupported [OF k t]
  have a: "metaUpdateSchema (fieldStep (key, value) v)
         = metaUpdateSchema v @ [\<lparr>Name = key, Type = [], Required = False\<rparr>]
       \<and> key \<in> set (newFields (fieldStep (key, value) v))"
    if "\<not> knownFields v key"
    using that by (simp add: fieldStep_new ty)
  have b: "\<exists>q sch.
          snd (updateSchema table tr rows) = tr @ q @ [EvUpdate sch (ETag meta)]
          \<and> calls q = [EvMetadata]
          \<and> \<lparr>Name = key, Type = [], Required = False\<rparr> \<in> set sch
          \<and> fst (updateSchema table tr rows)
              = (case Update table (tr @ q) sch (ETag meta) of
                   None \<Rightarrow> None
                 | Some err \<Rightarrow> Some (''unable to update schema: '' @ err))"
    if m: "Metadata table tr = Inr meta" and p: "list_all permitted (Schema meta)"
      and e: "concat rows = pre @ (key, value) # post" and f: "key \<notin> fst ` set pre"
      and n: "key \<notin> set (map Name (Schema meta))"
  proof -
    let ?staged = "stage (\<lambda>k. k \<in> set (map Name (Schema meta))) (concat rows)"
    from updateSchema_sync [OF m p, of rows] obtain q where
      q: "calls q = [EvMetadata]" and
      u: "updateSchema table tr rows =
          (if ?staged = [] then (None, tr @ q)
           else (case Update table (tr @ q) (Schema meta @ ?staged) (ETag meta) of
                  None \<Rightarrow> None
                | Some err \<Rightarrow> Some (''unable to update schema: '' @ err),
                tr @ q @ [EvUpdate (Schema meta @ ?staged) (ETag meta)]))"
      unfolding Let_def by blast
    have "\<lparr>Name = key, Type = fst (newFieldType key value), Required = False\<rparr> \<in> set ?staged"
      using e f n by (rule stage_first)
    then have i: "\<lparr>Name = key, Type = [], Required = False\<rparr> \<in> set ?staged"
      by (simp add: ty)
    then have ne: "?staged \<noteq> []" by auto
    from i have i': "\<lparr>Name = key, Type = [], Required = False\<rparr> \<in> set (Schema meta @ ?staged)"
      by simp
    from u ne have
      "snd (updateSchema table tr rows) = tr @ q @ [EvUpdate (Schema meta @ ?staged) (ETag meta)]"
      "fst (updateSchema table tr rows)
           = (case Update table (tr @ q) (Schema meta @ ?staged) (ETag meta) of
                None \<Rightarrow> None
              | Some err \<Rightarrow> Some (''unable to update schema: '' @ err))"
      by simp_all
    with q i' show ?thesis by blast
  qed
  from a b show ?thesis by blast
qed

theorem unsupported_type_staged_witness:
  "(metaUpdateSchema (fieldStep (''tags'', GoMap [(''a'', ValueInt 1)]) exampleVars)
      = exampleSchema @ [\<lparr>Name = ''tags'', Type = [], Required = False\<rparr>]
    \<and> ''tags'' \<in> set (newFields (fieldStep (''tags'', GoMap [(''a'', ValueInt 1)]) exampleVars)))
   \<and> (\<exists>q sch.
        snd (updateSchema exampleStore [] mapRows) = q @ [EvUpdate sch ''etag1'']
        \<and> calls q = [EvMetadata]
        \<and> \<lparr>Name = ''tags'', Type = [], Required = False\<rparr> \<in> set sch
        \<and> fst (updateSchema exampleStore [] mapRows) = None)"
proof -
  let ?meta = "\<lparr>Schema = exampleSchema, ETag = ''etag1''\<rparr>"
  have k: "''tags'' \<noteq> ''ts''" by simp
  have t: "typeString (GoMap [(''a'', ValueInt 1)])
      \<notin> {''bool'', ''float64'', ''int64'', ''string'', ''uint8''}"
    by simp
  note th = unsupported_type_staged [OF k t, of exampleVars exampleStore "[]" ?meta mapRows
      "[(''name'', GoString ''span1'')]" "[]"]
  have u: "\<not> knownFields exampleVars ''tags''" by (simp add: exampleVars_def)
  have m: "Metadata exampleStore [] = Inr ?meta"
    by (simp add: exampleStore_def)
  have p: "list_all permitted (Schema ?meta)"
    using exampleSchema_permitted by simp
  have e: "concat mapRows
      = [(''name'', GoString ''span1'')] @ (''tags'', GoMap [(''a'', ValueInt 1)]) # []"
    by (simp add: mapRows_def)
  have f: "''tags'' \<notin> fst ` set [(''name'', GoString ''span1'')]" by simp
  have n: "''tags'' \<notin> set (map Name (Schema ?meta))"
    by (simp add: exampleSchema_def)
  from th u have a:
    "metaUpdateSchema (fieldStep (''tags'', GoMap [(''a'', ValueInt 1)]) exampleVars)
      = exampleSchema @ [\<lparr>Name = ''tags'', Type = [], Required = False\<rparr>]
    \<and> ''tags'' \<in> set (newFields (fieldStep (''tags'', GoMap [(''a'', ValueInt 1)]) exampleVars))"
    by (simp add: exampleVars_def)
  from th m p e f n obtain q sch where
    "snd (updateSchema exampleStore [] mapRows) = [] @ q @ [EvUpdate sch (ETag ?meta)]"
    "calls q = [EvMetadata]"
    "\<lparr>Name = ''tags'', Type = [], Required = False\<rparr> \<in> set sch"
    "fst (updateSchema exampleStore [] mapRows)
         = (case Update exampleStore ([] @ q) sch (ETag ?meta) of
              None \<Rightarrow> None
            | Some err \<Rightarrow> Some (''unable to update schema: '' @ err))"
    by blast
  moreover have "Update exampleStore ([] @ q) sch (ETag ?meta) = None"
    by (simp add: exampleStore_def)
  ultimately have "\<exists>q sch.
        snd (updateSchema exampleStore [] mapRows) = q @ [EvUpdate sch ''etag1'']
        \<and> calls q = [EvMetadata]
        \<and> \<lparr>Name = ''tags'', Type = [], Required = False\<rparr> \<in> set sch
        \<and> fst (updateSchema exampleStore [] mapRows) = None"
    by auto
  with a show ?thesis by blast
qed

subsection \<open>The alteration request\<close>

text \<open>
  C5, as the code has it: when the metadata is fetched and every field of its schema has
  one of the six field types that the loop over \<open>meta.Schema\<close> accepts, \<open>updateSchema\<close>
  sends an alteration request if and only if some field name of the batch is absent from
  the fetched schema. If none is, it returns success and has only fetched the metadata.
  Otherwise it sends exactly one request, with the fetched ETag and with the fetched
  schema followed by the staged fields: one field, not required, for each absent name of
  the batch.
\<close>

theorem updateSchema_alteration:
  assumes "Metadata table tr = Inr meta" and "list_all permitted (Schema meta)"
  shows
   "(set (batchKeys rows) \<subseteq> set (map Name (Schema meta)) \<longrightarrow>
       fst (updateSchema table tr rows) = None
       \<and> calls (snd (updateSchema table tr rows)) = calls tr @ [EvMetadata])
    \<and> (\<not> set (batchKeys rows) \<subseteq> set (map Name (Schema meta)) \<longrightarrow>
       (\<exists>staged.
          calls (snd (updateSchema table tr rows))
            = calls tr @ [EvMetadata, EvUpdate (Schema meta @ staged) (ETag meta)]
          \<and> distinct (map Name staged)
          \<and> set (map Name staged) = set (batchKeys rows) - set (map Name (Schema meta))
          \<and> list_all (\<lambda>f. \<not> Required f) staged))"
proof -
  let ?kf = "\<lambda>k. k \<in> set (map Name (Schema meta))"
  let ?staged = "stage ?kf (concat rows)"
  note c = updateSchema_calls [OF assms, of rows]
  have a: "set (batchKeys rows) \<subseteq> set (map Name (Schema meta)) \<longrightarrow>
       fst (updateSchema table tr rows) = None
       \<and> calls (snd (updateSchema table tr rows)) = calls tr @ [EvMetadata]"
    using c by simp
  have n: "set (map Name ?staged) = set (batchKeys rows) - set (map Name (Schema meta))"
    unfolding stage_names batchKeys_def by auto
  have b: "\<not> set (batchKeys rows) \<subseteq> set (map Name (Schema meta)) \<longrightarrow>
       calls (snd (updateSchema table tr rows))
            = calls tr @ [EvMetadata, EvUpdate (Schema meta @ ?staged) (ETag meta)]"
    using c(1) by simp
  from a b n stage_distinct [of ?kf "concat rows"] stage_nullable [of ?kf "concat rows"]
  show ?thesis by blast
qed

theorem updateSchema_alteration_witness:
  "(fst (updateSchema exampleStore [] knownRows) = None
     \<and> calls (snd (updateSchema exampleStore [] knownRows)) = [EvMetadata])
   \<and> (\<exists>staged.
        calls (snd (updateSchema exampleStore [] exampleRows))
          = [EvMetadata, EvUpdate (exampleSchema @ staged) ''etag1'']
        \<and> distinct (map Name staged) \<and> set (map Name staged) = {''level''})"
proof -
  let ?meta = "\<lparr>Schema = exampleSchema, ETag = ''etag1''\<rparr>"
  have m: "Metadata exampleStore [] = Inr ?meta"
    by (simp add: exampleStore_def)
  have p: "list_all permitted (Schema ?meta)"
    using exampleSchema_permitted by simp
  have k: "set (batchKeys knownRows) \<subseteq> set (map Name (Schema ?meta))"
    by (simp add: batchKeys_def knownRows_def exampleSchema_def)
  have n: "\<not> set (batchKeys exampleRows) \<subseteq> set (map Name (Schema ?meta))"
    by (simp add: batchKeys_def exampleRows_def exampleSchema_def)
  have d: "set (batchKeys exampleRows) - set (map Name (Schema ?meta)) = {''level''}"
    by (simp add: batchKeys_def exampleRows_def exampleSchema_def)
  from updateSchema_alteration [OF m p, of knownRows] k
  have a: "fst (updateSchema exampleStore [] knownRows) = None
     \<and> calls (snd (updateSchema exampleStore [] knownRows)) = [EvMetadata]"
    by (simp add: calls_def)
  from updateSchema_alteration [OF m p, of exampleRows] n
  have "\<exists>staged.
          calls (snd (updateSchema exampleStore [] exampleRows))
            = calls [] @ [EvMetadata, EvUpdate (Schema ?meta @ staged) (ETag ?meta)]
          \<and> distinct (map Name staged)
          \<and> set (map Name staged) = set (batchKeys exampleRows) - set (map Name (Schema ?meta))
          \<and> list_all (\<lambda>f. \<not> Required f) staged"
    by blast
  then have "\<exists>staged.
        calls (snd (updateSchema exampleStore [] exampleRows))
          = [EvMetadata, EvUpdate (exampleSchema @ staged) ''etag1'']
        \<and> distinct (map Name staged) \<and> set (map Name staged) = {''level''}"
    unfolding d by (auto simp: calls_def)
  with a show ?thesis by blast
qed

text \<open>For a fetched schema with a field of another type, the loop over \<open>meta.Schema\<close>
  returns its error: no alteration is requested although the batch has new fields.\<close>

theorem unsupported_remote_type_counterexample:
  "\<not> set (batchKeys exampleRows)
       \<subseteq> set (map Name [\<lparr>Name = ''id'', Type = ''INTEGER'', Required = False\<rparr>])
   \<and> updateSchema integerStore [] exampleRows
       = (Some ''BigQuery field type INTEGER incompatible with span attribute value types'',
          [EvMetadata])"
  by (simp add: batchKeys_def exampleRows_def updateSchema_def integerStore_def initVars_def
      knownField_def fieldTypes)

text \<open>
  C6: whatever the table answers, an alteration request that \<open>updateSchema\<close> sends carries
  the fetched schema as a prefix, every field of it unchanged; and for a known field
  whose recorded type differs from the type of the value, the loop body only prints the
  warning and goes on with all variables as they were.
\<close>

theorem schema_append_only:
  "(updateSchema table tr rows = (r, tr') \<and> EvUpdate sch etag \<in> set (drop (length tr) tr')
      \<longrightarrow> (\<exists>meta. Metadata table tr = Inr meta \<and> prefix (Schema meta) sch))
   \<and> (knownFields v key \<and> knownFieldsTypes v key \<noteq> typeString value
      \<longrightarrow> fieldStep (key, value) v
           = v\<lparr>history := history v @ [EvPrint (FieldTypeMismatch key (typeString value))]\<rparr>)"
proof -
  have a: "\<exists>meta. Metadata table tr = Inr meta \<and> prefix (Schema meta) sch"
    if u: "updateSchema table tr rows = (r, tr')"
      and m: "EvUpdate sch etag \<in> set (drop (length tr) tr')"
  proof -
    from updateSchema_events [of table tr rows] u obtain q where
      q: "tr' = tr @ q" and
      c: "calls q = [EvMetadata] \<or>
        (\<exists>meta staged. Metadata table tr = Inr meta
           \<and> calls q = [EvMetadata, EvUpdate (Schema meta @ staged) (ETag meta)])"
      by auto
    from m q have "EvUpdate sch etag \<in> set q" by simp
    then have i: "EvUpdate sch etag \<in> set (calls q)" by (rule in_calls) simp
    from c show ?thesis
    proof
      assume "calls q = [EvMetadata]"
      with i show ?thesis by simp
    next
      assume "\<exists>meta staged. Metadata table tr = Inr meta
           \<and> calls q = [EvMetadata, EvUpdate (Schema meta @ staged) (ETag meta)]"
      then obtain meta staged where "Metadata table tr = Inr meta"
        and "calls q = [EvMetadata, EvUpdate (Schema meta @ staged) (ETag meta)]" by blast
      with i show ?thesis by auto
    qed
  qed
  have b: "fieldStep (key, value) v
           = v\<lparr>history := history v @ [EvPrint (FieldTypeMismatch key (typeString value))]\<rparr>"
    if "knownFields v key" and "knownFieldsTypes v key \<noteq> typeString value"
    using that by (simp add: fieldStep_known)
  from a b show ?thesis by blast
qed

theorem schema_append_only_witness:
  "(\<exists>meta. Metadata exampleStore [] = Inr meta
       \<and> prefix (Schema meta)
            (exampleSchema @ [\<lparr>Name = ''level'', Type = NumericFieldType, Required = False\<rparr>]))
   \<and> fieldStep (''name'', GoInt64 7) exampleVars
       = exampleVars\<lparr>history := history exampleVars
                        @ [EvPrint (FieldTypeMismatch ''name'' ''int64'')]\<rparr>"
proof -
  let ?sch = "exampleSchema @ [\<lparr>Name = ''level'', Type = NumericFieldType, Required = False\<rparr>]"
  let ?tr' = "[EvMetadata, EvPrint (UpdatingField ''level'' NumericFieldType),
             EvPrint (UpdatingSchema 1), EvUpdate ?sch ''etag1'']"
  have u: "updateSchema exampleStore [] exampleRows = (None, ?tr')"
    using example_updateSchema [of "[]"] by simp
  have i: "EvUpdate ?sch ''etag1'' \<in> set (drop (length ([]::event list)) ?tr')" by simp
  have k: "knownFields exampleVars ''name''
      \<and> knownFieldsTypes exampleVars ''name'' \<noteq> typeString (GoInt64 7)"
    by (simp add: exampleVars_def)
  note t = schema_append_only [of exampleStore "[]" exampleRows None ?tr' ?sch "''etag1''"
      exampleVars "''name''" "GoInt64 7"]
  from t u i have a: "\<exists>meta. Metadata exampleStore [] = Inr meta \<and> prefix (Schema meta) ?sch"
    by blast
  from t k have "fieldStep (''name'', GoInt64 7) exampleVars
       = exampleVars\<lparr>history := history exampleVars
                        @ [EvPrint (FieldTypeMismatch ''name'' (typeString (GoInt64 7)))]\<rparr>"
    by blast
  with a show ?thesis by simp
qed

section \<open>Sending the rows\<close>

lemma consumeTraces_result:
  "fst (consumeTraces s table tr td) = fst (sendRows s table tr (buildRows td))"
  by (simp add: consumeTraces_def Let_def split: prod.splits option.splits)

text \<open>
  C1: with \<open>SchemaFlexible\<close> off, an insert that fails with an unknown-field error makes
  \<open>sendRows\<close> return that error, having done nothing but the one insert: no metadata is
  fetched and no alteration is requested.
\<close>

theorem sendRows_fixed_schema:
  "\<not> SchemaFlexible sender \<Longrightarrow> Put table tr rows = Some err
   \<Longrightarrow> strings_Contains err ''no such field''
   \<Longrightarrow> sendRows sender table tr rows = (Some err, tr @ [EvPut rows])"
  by (simp add: sendRows_def Let_def)

theorem sendRows_fixed_schema_witness:
  "\<not> SchemaFlexible fixedConfig
   \<and> Put exampleStore [] exampleRows = Some ''no such field: level''
   \<and> sendRows fixedConfig exampleStore [] exampleRows
       = (Some ''no such field: level'', [EvPut exampleRows])"
proof -
  have c: "\<not> SchemaFlexible fixedConfig" by (simp add: fixedConfig_def)
  have p: "Put exampleStore [] exampleRows = Some ''no such field: level''"
    by (simp add: exampleStore_def)
  from sendRows_fixed_schema [OF c p contains_example] c p show ?thesis by simp
qed

text \<open>
  C2, as the code has it: with \<open>SchemaFlexible\<close> on, when the first insert fails with an
  unknown-field error and \<open>updateSchema\<close> succeeds, the exporter has fetched the metadata
  once, sent one alteration request if some field name of the batch is absent from the
  fetched schema and none otherwise, waited 60 seconds, and inserted the same batch once
  more, in this order; it returns what the second insert returns, whatever that is.
\<close>

theorem sendRows_flexible_retry_once:
  assumes f: "SchemaFlexible sender" and p: "Put table tr rows = Some err"
    and c: "strings_Contains err ''no such field''"
    and u: "updateSchema table (tr @ [EvPut rows]) rows = (None, tr2)"
  shows "\<exists>meta staged.
     Metadata table (tr @ [EvPut rows]) = Inr meta
     \<and> calls (snd (sendRows sender table tr rows))
         = calls tr @ [EvPut rows, EvMetadata]
           @ (if set (batchKeys rows) \<subseteq> set (map Name (Schema meta)) then []
              else [EvUpdate (Schema meta @ staged) (ETag meta)])
           @ [EvSleep 60, EvPut rows]
     \<and> fst (sendRows sender table tr rows)
         = Put table (tr2 @ [EvPrint (WaitingForSchema 60), EvSleep 60, EvPrint RetryingInsert]) rows"
proof -
  let ?tr1 = "tr @ [EvPut rows]"
  let ?tr3 = "tr2 @ [EvPrint (WaitingForSchema 60), EvSleep 60, EvPrint RetryingInsert]"
  have s: "sendRows sender table tr rows = (Put table ?tr3 rows, ?tr3 @ [EvPut rows])"
    using f p c u by (simp add: sendRows_def Let_def)
  obtain meta where m: "Metadata table ?tr1 = Inr meta"
    using u updateSchema_fetch_fails [of table ?tr1 _ rows]
    by (cases "Metadata table ?tr1") auto
  have pm: "list_all permitted (Schema meta)"
    using u updateSchema_guard [OF m, of rows] by (cases "list_all permitted (Schema meta)") auto
  let ?staged = "stage (\<lambda>k. k \<in> set (map Name (Schema meta))) (concat rows)"
  from updateSchema_calls(1) [OF m pm, of rows] u
  have "calls tr2 = calls ?tr1 @ [EvMetadata]
        @ (if set (batchKeys rows) \<subseteq> set (map Name (Schema meta)) then []
           else [EvUpdate (Schema meta @ ?staged) (ETag meta)])"
    by simp
  then have a: "set (batchKeys rows) \<subseteq> set (map Name (Schema meta)) \<longrightarrow>
       calls tr2 = calls ?tr1 @ [EvMetadata]"
    and b: "\<not> set (batchKeys rows) \<subseteq> set (map Name (Schema meta)) \<longrightarrow>
       calls tr2 = calls ?tr1 @ [EvMetadata, EvUpdate (Schema meta @ ?staged) (ETag meta)]"
    by simp_all
  have t: "calls tr2 = calls tr @ [EvPut rows, EvMetadata]
           @ (if set (batchKeys rows) \<subseteq> set (map Name (Schema meta)) then []
              else [EvUpdate (Schema meta @ ?staged) (ETag meta)])"
    using a b by (simp add: calls_append) (simp add: calls_def)
  have "calls (?tr3 @ [EvPut rows]) = calls tr2 @ [EvSleep 60, EvPut rows]"
    by (simp add: calls_append) (simp add: calls_def)
  with t have "calls (snd (sendRows sender table tr rows))
         = calls tr @ [EvPut rows, EvMetadata]
           @ (if set (batchKeys rows) \<subseteq> set (map Name (Schema meta)) then []
              else [EvUpdate (Schema meta @ ?staged) (ETag meta)])
           @ [EvSleep 60, EvPut rows]"
    by (simp add: s)
  with m s show ?thesis by auto
qed

theorem sendRows_flexible_retry_once_witness:
  "SchemaFlexible flexibleConfig
   \<and> (\<exists>staged. calls (snd (sendRows flexibleConfig exampleStore [] exampleRows))
       = [EvPut exampleRows, EvMetadata, EvUpdate (exampleSchema @ staged) ''etag1'',
          EvSleep 60, EvPut exampleRows])
   \<and> fst (sendRows flexibleConfig exampleStore [] exampleRows) = None"
proof -
  have f: "SchemaFlexible flexibleConfig" by (simp add: flexibleConfig_def)
  have p: "Put exampleStore [] exampleRows = Some ''no such field: level''"
    by (simp add: exampleStore_def)
  have u: "updateSchema exampleStore ([] @ [EvPut exampleRows]) exampleRows
   = (None, [EvPut exampleRows, EvMetadata, EvPrint (UpdatingField ''level'' NumericFieldType),
             EvPrint (UpdatingSchema 1),
             EvUpdate (exampleSchema @ [\<lparr>Name = ''level'', Type = NumericFieldType, Required = False\<rparr>]) ''etag1''])"
    using example_updateSchema [of "[EvPut exampleRows]"] by simp
  from sendRows_flexible_retry_once [OF f p contains_example u]
  obtain meta staged where
    m: "Metadata exampleStore ([] @ [EvPut exampleRows]) = Inr meta" and
    c: "calls (snd (sendRows flexibleConfig exampleStore [] exampleRows))
         = calls [] @ [EvPut exampleRows, EvMetadata]
           @ (if set (batchKeys exampleRows) \<subseteq> set (map Name (Schema meta)) then []
              else [EvUpdate (Schema meta @ staged) (ETag meta)])
           @ [EvSleep 60, EvPut exampleRows]" and
    r: "fst (sendRows flexibleConfig exampleStore [] exampleRows)
         = Put exampleStore ([EvPut exampleRows, EvMetadata, EvPrint (UpdatingField ''level'' NumericFieldType),
             EvPrint (UpdatingSchema 1),
             EvUpdate (exampleSchema @ [\<lparr>Name = ''level'', Type = NumericFieldType, Required = False\<rparr>]) ''etag1'']
             @ [EvPrint (WaitingForSchema 60), EvSleep 60, EvPrint RetryingInsert]) exampleRows"
    by blast
  from m have meta: "meta = \<lparr>Schema = exampleSchema, ETag = ''etag1''\<rparr>"
    by (simp add: exampleStore_def)
  have n: "\<not> set (batchKeys exampleRows) \<subseteq> set (map Name exampleSchema)"
    by (simp add: batchKeys_def exampleRows_def exampleSchema_def)
  from c n have "calls (snd (sendRows flexibleConfig exampleStore [] exampleRows))
       = [EvPut exampleRows, EvMetadata, EvUpdate (exampleSchema @ staged) ''etag1'',
          EvSleep 60, EvPut exampleRows]"
    by (simp add: meta calls_def)
  moreover from r have "fst (sendRows flexibleConfig exampleStore [] exampleRows) = None"
    by (simp add: exampleStore_def)
  ultimately show ?thesis using f by blast
qed

text \<open>The store may reject the insert with an unknown-field error although the fetched
  schema has every field of the batch: the synchronization succeeds without an
  alteration request, and the batch is inserted again.\<close>

theorem sync_without_alteration_counterexample:
  "SchemaFlexible flexibleConfig
   \<and> Put laggingStore [] exampleRows = Some ''no such field: level''
   \<and> fst (updateSchema laggingStore [EvPut exampleRows] exampleRows) = None
   \<and> calls (snd (sendRows flexibleConfig laggingStore [] exampleRows))
       = [EvPut exampleRows, EvMetadata, EvSleep 60, EvPut exampleRows]"
proof -
  have f: "SchemaFlexible flexibleConfig" by (simp add: flexibleConfig_def)
  have p: "Put laggingStore [] exampleRows = Some ''no such field: level''"
    by (simp add: laggingStore_def)
  have "calls (snd (sendRows flexibleConfig laggingStore [] exampleRows))
       = [EvPut exampleRows, EvMetadata, EvSleep 60, EvPut exampleRows]"
    using f p contains_example lagging_updateSchema by (simp add: sendRows_def Let_def calls_def)
  with f p lagging_updateSchema show ?thesis by simp
qed

subsection \<open>insertRows\<close>

text \<open>\<open>insertRows\<close> is \<open>sendRows\<close> with the setting on, up to the wording of the error for
  a field type that is not permitted.\<close>

lemma knownFieldOld_permitted:
  "permitted field \<Longrightarrow> knownFieldOld field v = knownField field v"
  unfolding permitted_def knownFieldOld_def knownField_def Let_def
  by (auto simp: fieldTypes)

lemma knownLoopOld_permitted:
  "list_all permitted fs \<Longrightarrow> knownLoopOld fs v = knownLoop fs v"
  by (induction fs arbitrary: v) (simp_all add: knownFieldOld_permitted split: sum.splits)

lemma updateSchemaOld_permitted:
  assumes "case Metadata table tr of Inl err \<Rightarrow> True | Inr meta \<Rightarrow> list_all permitted (Schema meta)"
  shows "updateSchemaOld table tr rows = updateSchema table tr rows"
  using assms
  by (cases "Metadata table tr")
     (simp_all add: updateSchemaOld_def updateSchema_def knownLoopOld_permitted)

lemma insertRows_sendRows:
  assumes "SchemaFlexible sender"
    and "case Metadata table (tr @ [EvPut rows]) of
           Inl err \<Rightarrow> True | Inr meta \<Rightarrow> list_all permitted (Schema meta)"
  shows "insertRows table tr rows = sendRows sender table tr rows"
  using assms(1) updateSchemaOld_permitted [OF assms(2), of rows]
  by (simp add: insertRows_def sendRows_def Let_def)

end
